theory Spec2Isabelle
  imports Complex_Main
begin

section \<open>Values flowing between the nodes\<close>

text \<open>
  A shallow embedding of \<^verbatim>\<open>src/main.ts\<close>. JavaScript numbers are modelled as real
  numbers (no rounding, no NaN, no infinities); \<^verbatim>\<open>null\<close> and \<^verbatim>\<open>undefined\<close> are
  \<open>None\<close>. The record fields carry a prefix where the TypeScript interfaces reuse a name
  (\<^verbatim>\<open>count\<close>, \<^verbatim>\<open>pinch\<close>, \<^verbatim>\<open>jaw\<close>, \<^verbatim>\<open>x\<close>, \<^verbatim>\<open>y\<close>).
\<close>

record Landmark =
  lm_x :: real
  lm_y :: real

record FaceMetrics =
  face_count :: real
  noseX :: real
  noseY :: real
  face_jaw :: real

record HandMetrics =
  hand_count :: real
  hand_pinch :: real
  palmY :: real

record Controls =
  tilt :: real
  lift :: real
  pinch :: real
  jaw :: real
  presence :: real

text \<open>
  \<^verbatim>\<open>Partial<FaceMetrics>\<close>, \<^verbatim>\<open>Partial<HandMetrics>\<close> and \<^verbatim>\<open>Partial<Controls>\<close>: every field
  may be missing. The empty object \<^verbatim>\<open>{}\<close> has no field.
\<close>

record PartialFaceMetrics =
  pf_count :: "real option"
  pf_noseX :: "real option"
  pf_noseY :: "real option"
  pf_jaw :: "real option"

record PartialHandMetrics =
  ph_count :: "real option"
  ph_pinch :: "real option"
  ph_palmY :: "real option"

record PartialControls =
  pc_tilt :: "real option"
  pc_lift :: "real option"
  pc_pinch :: "real option"
  pc_jaw :: "real option"
  pc_presence :: "real option"

definition empty_face :: PartialFaceMetrics where
  "empty_face = \<lparr>pf_count = None, pf_noseX = None, pf_noseY = None, pf_jaw = None\<rparr>"

definition empty_hand :: PartialHandMetrics where
  "empty_hand = \<lparr>ph_count = None, ph_pinch = None, ph_palmY = None\<rparr>"

definition empty_controls :: PartialControls where
  "empty_controls =
     \<lparr>pc_tilt = None, pc_lift = None, pc_pinch = None, pc_jaw = None, pc_presence = None\<rparr>"

text \<open>The same object read through the wider \<^verbatim>\<open>Partial\<close> type.\<close>

definition partial_face :: "FaceMetrics \<Rightarrow> PartialFaceMetrics" where
  "partial_face m =
     \<lparr>pf_count = Some (face_count m), pf_noseX = Some (noseX m),
      pf_noseY = Some (noseY m), pf_jaw = Some (face_jaw m)\<rparr>"

definition partial_hand :: "HandMetrics \<Rightarrow> PartialHandMetrics" where
  "partial_hand m =
     \<lparr>ph_count = Some (hand_count m), ph_pinch = Some (hand_pinch m),
      ph_palmY = Some (palmY m)\<rparr>"

definition partial_controls :: "Controls \<Rightarrow> PartialControls" where
  "partial_controls c =
     \<lparr>pc_tilt = Some (tilt c), pc_lift = Some (lift c), pc_pinch = Some (pinch c),
      pc_jaw = Some (jaw c), pc_presence = Some (presence c)\<rparr>"

text \<open>\<^verbatim>\<open>a ?? b\<close> on a number that may be missing.\<close>

definition nullish :: "'a option \<Rightarrow> 'a \<Rightarrow> 'a" where
  "nullish a b = (case a of None \<Rightarrow> b | Some v \<Rightarrow> v)"

text \<open>\<^verbatim>\<open>xs[i]\<close>: reading a JavaScript array out of range gives \<^verbatim>\<open>undefined\<close>.\<close>

definition elem_at :: "'a list \<Rightarrow> nat \<Rightarrow> 'a option" where
  "elem_at xs i = (if i < length xs then Some (xs ! i) else None)"

text \<open>The truthiness of a number that may be missing: \<^verbatim>\<open>undefined\<close> and \<^verbatim>\<open>0\<close> are falsy.\<close>

definition truthy :: "real option \<Rightarrow> bool" where
  "truthy v = (case v of None \<Rightarrow> False | Some n \<Rightarrow> n \<noteq> 0)"

section \<open>Helpers\<close>

text \<open>\<^verbatim>\<open>clamp(value, min, max) = Math.max(min, Math.min(max, value))\<close>\<close>

definition clamp :: "real \<Rightarrow> real \<Rightarrow> real \<Rightarrow> real" where
  "clamp v lo hi = max lo (min hi v)"

text \<open>\<^verbatim>\<open>Math.hypot\<close> on two arguments.\<close>

definition hypot :: "real \<Rightarrow> real \<Rightarrow> real" where
  "hypot a b = sqrt (a\<^sup>2 + b\<^sup>2)"

definition distance2d :: "Landmark option \<Rightarrow> Landmark option \<Rightarrow> real" where
  "distance2d a b =
     (case a of None \<Rightarrow> 0
      | Some p \<Rightarrow> (case b of None \<Rightarrow> 0
          | Some q \<Rightarrow> hypot (lm_x p - lm_x q) (lm_y p - lm_y q)))"

text \<open>
  \<^verbatim>\<open>a % b\<close> on numbers: the remainder of the division truncated towards zero (the sign
  of the result is the sign of \<open>a\<close>).
\<close>

definition js_rem :: "real \<Rightarrow> real \<Rightarrow> real" where
  "js_rem a b =
     a - b * of_int (if 0 \<le> a / b then \<lfloor>a / b\<rfloor> else \<lceil>a / b\<rceil>)"

section \<open>Canvases and the application state\<close>

text \<open>
  The program owns three canvases: \<^verbatim>\<open>state.sourceCanvas\<close>, \<^verbatim>\<open>state.overlayCanvas\<close>
  and \<^verbatim>\<open>ui.stage\<close>. A value of kind \<^verbatim>\<open>canvas\<close> on a port is a reference to one of
  them, so the canvases live in a store indexed by their identity. A canvas is its
  size, the drawing commands issued on its 2D context since its bitmap was last
  reallocated, and the number of reallocations (every assignment to \<^verbatim>\<open>width\<close> or
  \<^verbatim>\<open>height\<close> reallocates the bitmap and clears it). The Canvas API is taken as a
  recorder of commands: its own range checks are outside the model.
\<close>

datatype canvas_id = SourceCanvas | OverlayCanvas | StageCanvas

datatype image_source = CanvasImage canvas_id | WebcamVideo

datatype color = Css string | Hsla real real real real

datatype style = Solid color | RadialGradient real real real real real real "(real \<times> color) list"

datatype cmd =
    Save
  | Restore
  | ClearRect real real real real
  | FillRect real real real real
  | SetFillStyle style
  | SetStrokeStyle style
  | SetLineWidth real
  | SetGlobalAlpha real
  | SetGlobalCompositeOperation string
  | Translate real real
  | Scale real real
  | DrawImage image_source real real "(real \<times> real) option"
  | BeginPath
  | Arc real real real real real
  | MoveTo real real
  | LineTo real real
  | Fill
  | Stroke

record canvas =
  cv_width :: nat
  cv_height :: nat
  ops :: "cmd list"
  reallocs :: nat

definition set_width :: "nat \<Rightarrow> canvas \<Rightarrow> canvas" where
  "set_width w c = c\<lparr>cv_width := w, ops := [], reallocs := Suc (reallocs c)\<rparr>"

definition set_height :: "nat \<Rightarrow> canvas \<Rightarrow> canvas" where
  "set_height h c = c\<lparr>cv_height := h, ops := [], reallocs := Suc (reallocs c)\<rparr>"

definition draw :: "cmd list \<Rightarrow> canvas \<Rightarrow> canvas" where
  "draw cs c = c\<lparr>ops := ops c @ cs\<rparr>"

type_synonym canvases = "canvas_id \<Rightarrow> canvas"

record TrailPoint =
  tp_x :: real
  tp_y :: real
  life :: real

datatype error = Thrown string

text \<open>
  A landmarker is the black box \<^verbatim>\<open>detectForVideo(frame, timeMs)\<close>: it reads the frame
  and the time, and returns the landmark lists (the field \<^verbatim>\<open>faceLandmarks\<close> or
  \<^verbatim>\<open>landmarks\<close> of its result, which may be missing) or throws.
\<close>

type_synonym landmarker = "canvas \<Rightarrow> real \<Rightarrow> error + Landmark list list option"

record Webcam =
  readyState :: nat
  videoWidth :: nat
  videoHeight :: nat

record AppState =
  modelsReady :: bool
  cameraReady :: bool
  faceLandmarker :: "landmarker option"
  handLandmarker :: "landmarker option"
  canvases :: canvases
  trail :: "TrailPoint list"
  frameCounter :: nat
  lastFaceMetrics :: "FaceMetrics option"
  lastHandMetrics :: "HandMetrics option"

definition on_canvas :: "canvas_id \<Rightarrow> (canvas \<Rightarrow> canvas) \<Rightarrow> AppState \<Rightarrow> AppState" where
  "on_canvas i f s = s\<lparr>canvases := (canvases s)(i := f (canvases s i))\<rparr>"

text \<open>
  The state at start-up (the literal of \<^verbatim>\<open>state\<close>). A canvas is created 300 by 150; the
  stage canvas, whose size follows the page layout, is given the same size here.
\<close>

definition new_canvas :: canvas where
  "new_canvas = \<lparr>cv_width = 300, cv_height = 150, ops = [], reallocs = 0\<rparr>"

definition initial_state :: AppState where
  "initial_state =
     \<lparr>modelsReady = False, cameraReady = False, faceLandmarker = None,
      handLandmarker = None, canvases = (\<lambda>i. new_canvas), trail = [], frameCounter = 0,
      lastFaceMetrics = None, lastHandMetrics = None\<rparr>"

section \<open>The nodes\<close>

subsection \<open>Webcam Source\<close>

record SourceOut =
  out_frame :: "canvas_id option"
  out_timeMs :: real

text \<open>
  \<open>mirror\<close> is the node's property, \<open>now\<close> the reading of \<^verbatim>\<open>performance.now()\<close> and
  \<open>has2d\<close> tells whether \<^verbatim>\<open>getContext('2d')\<close> gives a context.
\<close>

definition WebcamSourceNode_onExecute ::
  "bool \<Rightarrow> Webcam \<Rightarrow> real \<Rightarrow> bool \<Rightarrow> AppState \<Rightarrow> SourceOut \<times> AppState" where
  "WebcamSourceNode_onExecute mirror webcam now has2d s =
    (if \<not> cameraReady s \<or> readyState webcam < 2
     then (\<lparr>out_frame = None, out_timeMs = now\<rparr>, s)
     else
       let vw = (if videoWidth webcam = 0 then 1280 else videoWidth webcam);
           vh = (if videoHeight webcam = 0 then 720 else videoHeight webcam);
           s1 = (if cv_width (canvases s SourceCanvas) \<noteq> vw
                    \<or> cv_height (canvases s SourceCanvas) \<noteq> vh
                 then on_canvas SourceCanvas (set_height vh \<circ> set_width vw) s
                 else s)
       in if \<not> has2d then (\<lparr>out_frame = None, out_timeMs = now\<rparr>, s1)
          else
            (\<lparr>out_frame = Some SourceCanvas, out_timeMs = now\<rparr>,
             on_canvas SourceCanvas
               (draw ([Save, ClearRect 0 0 (real vw) (real vh)]
                      @ (if mirror then [Translate (real vw) 0, Scale (- 1) 1] else [])
                      @ [DrawImage WebcamVideo 0 0 (Some (real vw, real vh)), Restore]))
               s1))"

subsection \<open>Face Extract and Hand Extract\<close>

record FaceOut =
  face_landmarks :: "Landmark list list option"
  face_metrics :: "FaceMetrics option"

record HandOut =
  hand_landmarks :: "Landmark list list option"
  hand_metrics :: "HandMetrics option"

text \<open>
  The inputs are the frame (a canvas reference or \<^verbatim>\<open>null\<close>) and the time (missing when
  the port has no data, then \<^verbatim>\<open>performance.now()\<close> is read). A throw of the landmarker
  leaves \<^verbatim>\<open>onExecute\<close>, which has no handler.
\<close>

definition face_metrics_of :: "Landmark list list \<Rightarrow> FaceMetrics" where
  "face_metrics_of faces =
    (let metrics = \<lparr>face_count = real (length faces), noseX = 0.5, noseY = 0.5, face_jaw = 0\<rparr>
     in case elem_at faces 0 of
          None \<Rightarrow> metrics
        | Some f \<Rightarrow>
            let nose = (case elem_at f 1 of Some p \<Rightarrow> Some p
                        | None \<Rightarrow> (case elem_at f 4 of Some p \<Rightarrow> Some p | None \<Rightarrow> elem_at f 0));
                upperLip = elem_at f 13;
                lowerLip = elem_at f 14;
                metrics1 = (case nose of None \<Rightarrow> metrics
                            | Some p \<Rightarrow> metrics\<lparr>noseX := lm_x p, noseY := lm_y p\<rparr>)
            in metrics1\<lparr>face_jaw := distance2d upperLip lowerLip\<rparr>)"

definition FaceExtractNode_onExecute ::
  "canvas_id option \<Rightarrow> real option \<Rightarrow> real \<Rightarrow> AppState \<Rightarrow> error + FaceOut \<times> AppState" where
  "FaceExtractNode_onExecute frame timeIn now s =
    (let timeMs = nullish timeIn now
     in case (frame, modelsReady s, faceLandmarker s) of
          (Some fr, True, Some detect) \<Rightarrow>
            (case detect (canvases s fr) timeMs of
               Inl e \<Rightarrow> Inl e
             | Inr result \<Rightarrow>
                 let faces = nullish result [];
                     metrics = face_metrics_of faces
                 in Inr (\<lparr>face_landmarks = Some faces, face_metrics = Some metrics\<rparr>,
                         s\<lparr>lastFaceMetrics := Some metrics\<rparr>))
        | _ \<Rightarrow> Inr (\<lparr>face_landmarks = None, face_metrics = None\<rparr>,
                    s\<lparr>lastFaceMetrics := None\<rparr>))"

definition hand_metrics_of :: "Landmark list list \<Rightarrow> HandMetrics" where
  "hand_metrics_of hands =
    (let metrics = \<lparr>hand_count = real (length hands), hand_pinch = 0, palmY = 0.5\<rparr>
     in case elem_at hands 0 of
          None \<Rightarrow> metrics
        | Some hand \<Rightarrow>
            let thumbTip = elem_at hand 4;
                indexTip = elem_at hand 8;
                wrist = elem_at hand 0;
                pinchDistance = distance2d thumbTip indexTip
            in metrics\<lparr>hand_pinch := clamp (1 - pinchDistance * 8) 0 1,
                       palmY := nullish (map_option lm_y wrist) 0.5\<rparr>)"

definition HandExtractNode_onExecute ::
  "canvas_id option \<Rightarrow> real option \<Rightarrow> real \<Rightarrow> AppState \<Rightarrow> error + HandOut \<times> AppState" where
  "HandExtractNode_onExecute frame timeIn now s =
    (let timeMs = nullish timeIn now
     in case (frame, modelsReady s, handLandmarker s) of
          (Some fr, True, Some detect) \<Rightarrow>
            (case detect (canvases s fr) timeMs of
               Inl e \<Rightarrow> Inl e
             | Inr result \<Rightarrow>
                 let hands = nullish result [];
                     metrics = hand_metrics_of hands
                 in Inr (\<lparr>hand_landmarks = Some hands, hand_metrics = Some metrics\<rparr>,
                         s\<lparr>lastHandMetrics := Some metrics\<rparr>))
        | _ \<Rightarrow> Inr (\<lparr>hand_landmarks = None, hand_metrics = None\<rparr>,
                    s\<lparr>lastHandMetrics := None\<rparr>))"

subsection \<open>Gesture Mapper\<close>

definition GestureMapperNode_onExecute ::
  "PartialFaceMetrics option \<Rightarrow> PartialHandMetrics option \<Rightarrow> Controls" where
  "GestureMapperNode_onExecute faceIn handIn =
    (let face = nullish faceIn empty_face;
         hand = nullish handIn empty_hand
     in \<lparr>tilt = nullish (pf_noseX face) 0.5 - 0.5,
         lift = 1 - nullish (ph_palmY hand) 0.5,
         pinch = nullish (ph_pinch hand) 0,
         jaw = nullish (pf_jaw face) 0,
         presence = max (if truthy (pf_count face) then 1 else 0)
                        (if truthy (ph_count hand) then 1 else 0)\<rparr>)"

subsection \<open>Landmark Overlay\<close>

definition HAND_CONNECTIONS :: "(nat \<times> nat) list" where
  "HAND_CONNECTIONS =
     [(0, 1), (1, 2), (2, 3), (3, 4), (0, 5), (5, 6), (6, 7), (7, 8), (5, 9), (9, 10),
      (10, 11), (11, 12), (9, 13), (13, 14), (14, 15), (15, 16), (13, 17), (17, 18),
      (18, 19), (19, 20), (0, 17)]"

text \<open>
  The loop of \<^verbatim>\<open>drawPoints\<close>, from index \<open>i\<close> in steps of \<open>step\<close>. Both call sites pass a
  positive step (5 and 1); the guard \<open>0 < step\<close> only makes the recursion total. \<open>W\<close>
  and \<open>H\<close> are \<^verbatim>\<open>ctx.canvas.width\<close> and \<^verbatim>\<open>ctx.canvas.height\<close>.
\<close>

function drawPoints_loop ::
  "Landmark list \<Rightarrow> real \<Rightarrow> nat \<Rightarrow> real \<Rightarrow> real \<Rightarrow> nat \<Rightarrow> cmd list" where
  "drawPoints_loop landmarks pointSize step W H i =
     (if i < length landmarks \<and> 0 < step
      then [BeginPath,
            Arc (lm_x (landmarks ! i) * W) (lm_y (landmarks ! i) * H) pointSize 0 (pi * 2),
            Fill]
           @ drawPoints_loop landmarks pointSize step W H (i + step)
      else [])"
  by pat_completeness auto
termination
  by (relation "measure (\<lambda>(landmarks, pointSize, step, W, H, i). length landmarks - i)") auto

definition drawPoints :: "Landmark list \<Rightarrow> string \<Rightarrow> real \<Rightarrow> nat \<Rightarrow> real \<Rightarrow> real \<Rightarrow> cmd list" where
  "drawPoints landmarks color pointSize step W H =
     (if landmarks = [] then []
      else SetFillStyle (Solid (Css color)) # drawPoints_loop landmarks pointSize step W H 0)"

definition drawHandConnections :: "Landmark list \<Rightarrow> string \<Rightarrow> real \<Rightarrow> real \<Rightarrow> cmd list" where
  "drawHandConnections landmarks color W H =
     (if landmarks = [] then []
      else [SetStrokeStyle (Solid (Css color)), SetLineWidth 2, BeginPath]
           @ concat (map (\<lambda>(from, to).
               case elem_at landmarks from of None \<Rightarrow> []
               | Some a \<Rightarrow> (case elem_at landmarks to of None \<Rightarrow> []
                   | Some b \<Rightarrow> [MoveTo (lm_x a * W) (lm_y a * H),
                                LineTo (lm_x b * W) (lm_y b * H)]))
             HAND_CONNECTIONS)
           @ [Stroke])"

text \<open>
  \<open>showFace\<close> and \<open>showHands\<close> are the node's properties. The output is the value set on
  the \<^verbatim>\<open>image\<close> port.
\<close>

definition LandmarkOverlayNode_onExecute ::
  "bool \<Rightarrow> bool \<Rightarrow> canvas_id option \<Rightarrow> Landmark list list option \<Rightarrow>
   Landmark list list option \<Rightarrow> bool \<Rightarrow> AppState \<Rightarrow> canvas_id option \<times> AppState" where
  "LandmarkOverlayNode_onExecute showFace showHands frameIn facesIn handsIn has2d s =
    (let faces = nullish facesIn [];
         hands = nullish handsIn []
     in case frameIn of
          None \<Rightarrow> (None, s)
        | Some frame \<Rightarrow>
            let fw = cv_width (canvases s frame);
                fh = cv_height (canvases s frame);
                s1 = (if cv_width (canvases s OverlayCanvas) \<noteq> fw
                         \<or> cv_height (canvases s OverlayCanvas) \<noteq> fh
                      then on_canvas OverlayCanvas (set_height fh \<circ> set_width fw) s
                      else s)
            in if \<not> has2d then (None, s1)
               else
                 let W = real (cv_width (canvases s1 OverlayCanvas));
                     H = real (cv_height (canvases s1 OverlayCanvas))
                 in (Some OverlayCanvas,
                     on_canvas OverlayCanvas
                       (draw ([ClearRect 0 0 W H, DrawImage (CanvasImage frame) 0 0 None]
                          @ (if showFace
                             then (case elem_at faces 0 of None \<Rightarrow> []
                                   | Some f \<Rightarrow> drawPoints f ''#f97316'' 1.6 5 W H)
                             else [])
                          @ (if showHands
                             then concat (map (\<lambda>hand.
                                    drawHandConnections hand ''#38bdf8'' W H
                                    @ drawPoints hand ''#22d3ee'' 2.4 1 W H) hands)
                             else [])))
                       s1))"

subsection \<open>Stage Output\<close>

text \<open>
  \<^verbatim>\<open>sourceRatio > targetRatio\<close> is false when the target height is zero (the ratio is
  then infinite or NaN), which the division of HOL would not give by itself.
\<close>

definition drawCoverImage :: "canvases \<Rightarrow> canvas_id \<Rightarrow> real \<Rightarrow> real \<Rightarrow> cmd list" where
  "drawCoverImage cs img targetWidth targetHeight =
    (let sourceWidth = cv_width (cs img);
         sourceHeight = cv_height (cs img)
     in if sourceWidth = 0 \<or> sourceHeight = 0 then []
        else
          let sourceRatio = real sourceWidth / real sourceHeight
          in if targetHeight \<noteq> 0 \<and> sourceRatio > targetWidth / targetHeight
             then (let drawHeight = targetHeight;
                       drawWidth = drawHeight * sourceRatio;
                       dx = (targetWidth - drawWidth) * 0.5
                   in [DrawImage (CanvasImage img) dx 0 (Some (drawWidth, drawHeight))])
             else (let drawWidth = targetWidth;
                       drawHeight = drawWidth / sourceRatio;
                       dy = (targetHeight - drawHeight) * 0.5
                   in [DrawImage (CanvasImage img) 0 dy (Some (drawWidth, drawHeight))]))"

text \<open>
  The trail buffer of \<^verbatim>\<open>drawStage\<close> (lines 337 to 347): push and evict, then decay every
  point, then drop the dead ones.
\<close>

definition trail_tick :: "real \<Rightarrow> real \<Rightarrow> real \<Rightarrow> TrailPoint list \<Rightarrow> TrailPoint list" where
  "trail_tick cx cy presence_now tr =
    (let pushed = (if presence_now > 0
                   then (let t = tr @ [\<lparr>tp_x = cx, tp_y = cy, life = 1\<rparr>]
                         in if length t > 45 then tl t else t)
                   else tr);
         decayed = map (\<lambda>p. p\<lparr>life := max 0 (life p - 0.02)\<rparr>) pushed
     in filter (\<lambda>p. life p > 0) decayed)"

text \<open>The three runs of drawing commands of \<^verbatim>\<open>drawStage\<close>, in the order they are issued.\<close>

definition stage_backdrop :: "canvases \<Rightarrow> canvas_id option \<Rightarrow> real \<Rightarrow> real \<Rightarrow> cmd list" where
  "stage_backdrop cs baseImage w h =
     [ClearRect 0 0 w h, SetFillStyle (Solid (Css ''#0b1020'')), FillRect 0 0 w h]
     @ (case baseImage of None \<Rightarrow> []
        | Some img \<Rightarrow> [Save, SetGlobalAlpha 0.95] @ drawCoverImage cs img w h @ [Restore])"

definition stage_trail :: "real \<Rightarrow> real \<Rightarrow> TrailPoint list \<Rightarrow> cmd list" where
  "stage_trail hue pinch_now tr =
     [Save, SetGlobalCompositeOperation ''screen'']
     @ concat (map (\<lambda>p.
         [SetFillStyle (Solid (Hsla (js_rem (hue + life p * 80) 360) 95 70 (0.12 * life p))),
          BeginPath,
          Arc (tp_x p) (tp_y p) (10 + 80 * life p * (0.2 + pinch_now)) 0 (pi * 2),
          Fill]) tr)"

definition stage_focus :: "real \<Rightarrow> real \<Rightarrow> real \<Rightarrow> real \<Rightarrow> real \<Rightarrow> cmd list" where
  "stage_focus cx cy radius hue time =
     [SetFillStyle (RadialGradient cx cy 6 cx cy radius
        [(0, Hsla hue 96 72 0.55),
         (0.5, Hsla (js_rem (hue + 40) 360) 96 62 0.18),
         (1, Css ''hsla(240, 80%, 20%, 0)'')]),
      BeginPath, Arc cx cy radius 0 (pi * 2), Fill, Restore,
      SetStrokeStyle (Solid (Hsla hue 90 75 0.8)), SetLineWidth 2,
      BeginPath, Arc cx cy (max 20 (radius * 0.4 + sin (time * 5) * 8)) 0 (pi * 2), Stroke]"

text \<open>
  \<open>now\<close> is the reading of \<^verbatim>\<open>performance.now()\<close>. The result is the commands this call
  issues on the stage canvas, and the state after the call.
\<close>

definition drawStage ::
  "canvas_id option \<Rightarrow> PartialControls \<Rightarrow> real \<Rightarrow> AppState \<Rightarrow> cmd list \<times> AppState" where
  "drawStage baseImage controls now s =
    (let w = real (cv_width (canvases s StageCanvas));
         h = real (cv_height (canvases s StageCanvas));
         time = now * 0.001;
         tilt_now = nullish (pc_tilt controls) 0;
         lift_now = nullish (pc_lift controls) 0;
         pinch_now = nullish (pc_pinch controls) 0;
         jaw_now = nullish (pc_jaw controls) 0;
         presence_now = nullish (pc_presence controls) 0;
         cx = w * clamp (0.5 + tilt_now * 1.1) 0.05 0.95;
         cy = h * clamp (0.7 - lift_now * 0.8) 0.08 0.92;
         radius = 40 + pinch_now * 240 + jaw_now * 2000;
         hue = js_rem (time * 85 + pinch_now * 220) 360;
         tr = trail_tick cx cy presence_now (trail s);
         cmds = stage_backdrop (canvases s) baseImage w h
                @ stage_trail hue pinch_now tr
                @ stage_focus cx cy radius hue time
     in (cmds, on_canvas StageCanvas (draw cmds) (s\<lparr>trail := tr\<rparr>)))"

text \<open>
  \<^verbatim>\<open>updateDebugOutput\<close> publishes the JSON text of this payload; the payload stands for
  the text.
\<close>

record DebugPayload =
  dbg_modelsReady :: bool
  dbg_cameraReady :: bool
  dbg_frame :: nat
  dbg_face :: "FaceMetrics option"
  dbg_hand :: "HandMetrics option"
  dbg_controls :: PartialControls

definition updateDebugOutput :: "PartialControls \<Rightarrow> AppState \<Rightarrow> DebugPayload" where
  "updateDebugOutput controls s =
     \<lparr>dbg_modelsReady = modelsReady s, dbg_cameraReady = cameraReady s,
      dbg_frame = frameCounter s, dbg_face = lastFaceMetrics s,
      dbg_hand = lastHandMetrics s, dbg_controls = controls\<rparr>"

text \<open>What one call of the Output node publishes: the drawing on the stage and the debug text.\<close>

record Published =
  stage_cmds :: "cmd list"
  debug :: DebugPayload

definition StageOutputNode_onExecute ::
  "canvas_id option \<Rightarrow> PartialControls option \<Rightarrow> real \<Rightarrow> AppState \<Rightarrow> Published \<times> AppState" where
  "StageOutputNode_onExecute img controlsIn now s =
    (let controls = nullish controlsIn empty_controls;
         (cmds, s1) = drawStage img controls now s
     in (\<lparr>stage_cmds = cmds, debug = updateDebugOutput controls s1\<rparr>, s1))"

text \<open>
  The trail buffer over several ticks: one triple (\<open>cx\<close>, \<open>cy\<close>, presence) per call of
  \<^verbatim>\<open>drawStage\<close>, oldest first.
\<close>

fun run_trail :: "(real \<times> real \<times> real) list \<Rightarrow> TrailPoint list \<Rightarrow> TrailPoint list" where
  "run_trail [] tr = tr"
| "run_trail ((cx, cy, p) # rest) tr = run_trail rest (trail_tick cx cy p tr)"

subsection \<open>The trail rule in the words of the specification\<close>

text \<open>
  The rule as the specification words it, for comparison with \<open>trail_tick\<close>: decay the
  existing points by the step \<open>d\<close>, drop the points whose life has reached zero or less,
  append one new point when the presence is nonzero, and evict the oldest point when the
  sequence is longer than \<open>maxLen\<close>.
\<close>

definition spec_trail_tick ::
  "real \<Rightarrow> nat \<Rightarrow> real \<Rightarrow> real \<Rightarrow> real \<Rightarrow> TrailPoint list \<Rightarrow> TrailPoint list" where
  "spec_trail_tick d maxLen cx cy presence_now tr =
    (let decayed = map (\<lambda>p. p\<lparr>life := life p - d\<rparr>) tr;
         alive = filter (\<lambda>p. \<not> life p \<le> 0) decayed;
         appended = (if presence_now \<noteq> 0
                     then alive @ [\<lparr>tp_x = cx, tp_y = cy, life = 1\<rparr>] else alive)
     in if length appended > maxLen then tl appended else appended)"

fun spec_run_trail ::
  "real \<Rightarrow> nat \<Rightarrow> (real \<times> real \<times> real) list \<Rightarrow> TrailPoint list \<Rightarrow> TrailPoint list" where
  "spec_run_trail d maxLen [] tr = tr"
| "spec_run_trail d maxLen ((cx, cy, p) # rest) tr =
     spec_run_trail d maxLen rest (spec_trail_tick d maxLen cx cy p tr)"

section \<open>The graph and its scheduler\<close>

datatype variant =
  WebcamSource | FaceExtract | HandExtract | LandmarkOverlay | GestureMapper | StageOutput

record edge =
  src :: nat
  src_port :: nat
  dst :: nat
  dst_port :: nat

record graph =
  gnodes :: "(nat \<times> variant) list"
  gedges :: "edge list"

text \<open>
  \<^verbatim>\<open>createDefaultGraph\<close>: the six nodes in the order of the calls of \<^verbatim>\<open>graph.add\<close>
  (numbered from 1 in that order) and the eleven connections in the order of the calls of
  \<^verbatim>\<open>connect\<close>.
\<close>

definition createDefaultGraph :: graph where
  "createDefaultGraph =
     \<lparr>gnodes = [(1, WebcamSource), (2, FaceExtract), (3, HandExtract),
                (4, LandmarkOverlay), (5, GestureMapper), (6, StageOutput)],
      gedges =
        [\<lparr>src = 1, src_port = 0, dst = 2, dst_port = 0\<rparr>,
         \<lparr>src = 1, src_port = 1, dst = 2, dst_port = 1\<rparr>,
         \<lparr>src = 1, src_port = 0, dst = 3, dst_port = 0\<rparr>,
         \<lparr>src = 1, src_port = 1, dst = 3, dst_port = 1\<rparr>,
         \<lparr>src = 1, src_port = 0, dst = 4, dst_port = 0\<rparr>,
         \<lparr>src = 2, src_port = 0, dst = 4, dst_port = 1\<rparr>,
         \<lparr>src = 3, src_port = 0, dst = 4, dst_port = 2\<rparr>,
         \<lparr>src = 2, src_port = 1, dst = 5, dst_port = 0\<rparr>,
         \<lparr>src = 3, src_port = 1, dst = 5, dst_port = 1\<rparr>,
         \<lparr>src = 4, src_port = 0, dst = 6, dst_port = 0\<rparr>,
         \<lparr>src = 5, src_port = 0, dst = 6, dst_port = 1\<rparr>]\<rparr>"

definition node_ids :: "graph \<Rightarrow> nat list" where
  "node_ids g = map fst (gnodes g)"

definition edge_rel :: "graph \<Rightarrow> (nat \<times> nat) set" where
  "edge_rel g = set (map (\<lambda>e. (src e, dst e)) (gedges g))"

text \<open>
  A valid graph: the node identifiers are distinct, every edge joins two nodes of the
  graph, and the edges form no cycle.
\<close>

definition valid_graph :: "graph \<Rightarrow> bool" where
  "valid_graph g \<longleftrightarrow>
     distinct (node_ids g)
     \<and> list_all (\<lambda>e. src e \<in> set (node_ids g) \<and> dst e \<in> set (node_ids g)) (gedges g)
     \<and> acyclic (edge_rel g)"

text \<open>
  Modelled from the spec: the scheduler. The program delegates one evaluation of the
  graph to \<^verbatim>\<open>graph.runStep(1, false)\<close> of the LiteGraph library, whose code is not part
  of the sources. Section 4.3 of the specification describes it: a topological sort
  (Kahn's algorithm) in which, among the nodes with no unresolved dependency, the node
  inserted first comes first. \<open>ready\<close> says that every node feeding \<open>n\<close> is already in
  the order; \<open>kahn\<close> moves the first ready pending node to the end of the order until
  no node is pending, and gives \<open>None\<close> when nodes are pending and none is ready.
\<close>

definition ready :: "edge list \<Rightarrow> nat list \<Rightarrow> nat \<Rightarrow> bool" where
  "ready es emitted n = list_all (\<lambda>e. dst e \<noteq> n \<or> src e \<in> set emitted) es"

function kahn :: "edge list \<Rightarrow> nat list \<Rightarrow> nat list \<Rightarrow> nat list option" where
  "kahn es pending emitted =
     (if pending = [] then Some emitted
      else case find (ready es emitted) pending of
             None \<Rightarrow> None
           | Some n \<Rightarrow> kahn es (remove1 n pending) (emitted @ [n]))"
  by pat_completeness auto
termination
proof (relation "measure (\<lambda>(es, pending, emitted). length pending)")
  show "wf (measure (\<lambda>(es, pending, emitted). length pending))"
    by simp
next
  fix es :: "edge list" and pending emitted :: "nat list" and n :: nat
  assume "pending \<noteq> []" and found: "find (ready es emitted) pending = Some n"
  from found have "n \<in> set pending"
    by (auto simp: find_Some_iff)
  then have "0 < length pending"
    by (cases pending) auto
  with \<open>n \<in> set pending\<close>
  show "((es, remove1 n pending, emitted @ [n]), (es, pending, emitted))
               \<in> measure (\<lambda>(es, pending, emitted). length pending)"
    by (simp add: length_remove1)
qed

definition evaluation_order :: "graph \<Rightarrow> nat list option" where
  "evaluation_order g = kahn (gedges g) (node_ids g) []"

text \<open>
  Modelled from the spec: \<^verbatim>\<open>tick()\<close> of section 4.3, which calls the \<^verbatim>\<open>execute\<close> of each
  node of the evaluation order, in that order. \<open>exec n\<close> is the effect of executing
  node \<open>n\<close> on the state of the pipeline.
\<close>

definition tick :: "(nat \<Rightarrow> 'st \<Rightarrow> 'st) \<Rightarrow> graph \<Rightarrow> 'st \<Rightarrow> 'st option" where
  "tick exec g st = map_option (foldl (\<lambda>acc n. exec n acc) st) (evaluation_order g)"

text \<open>
  The body of the callback of \<^verbatim>\<open>startGraphLoop\<close>: the frame counter advances and the
  graph is evaluated once.
\<close>

definition loop :: "(nat \<Rightarrow> 'st \<Rightarrow> 'st) \<Rightarrow> graph \<Rightarrow> AppState \<times> 'st \<Rightarrow> AppState \<times> 'st option" where
  "loop exec g = (\<lambda>(s, st). (s\<lparr>frameCounter := frameCounter s + 1\<rparr>, tick exec g st))"

text \<open>\<open>a\<close> occurs in \<open>xs\<close> before the first occurrence of \<open>b\<close>.\<close>

definition precedes :: "'a list \<Rightarrow> 'a \<Rightarrow> 'a \<Rightarrow> bool" where
  "precedes xs a b \<longleftrightarrow> b \<in> set xs \<and> a \<in> set (takeWhile (\<lambda>x. x \<noteq> b) xs)"

section \<open>Concrete inputs\<close>

text \<open>
  A hand of 21 landmarks whose thumb tip (index 4) and index-finger tip (index 8) are
  0.02 apart.
\<close>

definition pinched_hand :: "Landmark list" where
  "pinched_hand = (replicate 21 \<lparr>lm_x = 0.5, lm_y = 0.5\<rparr>)[8 := \<lparr>lm_x = 0.52, lm_y = 0.5\<rparr>]"

text \<open>The control record the Mapper gives when nothing is detected.\<close>

definition neutral_controls :: PartialControls where
  "neutral_controls = partial_controls \<lparr>tilt = 0, lift = 0.5, pinch = 0, jaw = 0, presence = 0\<rparr>"

text \<open>
  A state in which the camera runs and the Source node has drawn one 640 by 480 frame
  into its canvas.
\<close>

definition running_state :: AppState where
  "running_state =
     initial_state\<lparr>cameraReady := True,
       canvases := (canvases initial_state)
         (SourceCanvas := \<lparr>cv_width = 640, cv_height = 480,
            ops = [Save, ClearRect 0 0 640 480, DrawImage WebcamVideo 0 0 (Some (640, 480)),
                   Restore],
            reallocs = 2\<rparr>)\<rparr>"

section \<open>Properties of the nodes\<close>

subsection \<open>Webcam Source\<close>

text \<open>
  C8: in every tick in which the capture device is not ready (the camera is not running,
  or the video element has no current frame), the Source node puts \<^verbatim>\<open>null\<close> on its frame
  port and the current time on its timestamp port. The node returns normally: the state
  is unchanged and no canvas is touched.
\<close>

theorem source_not_ready:
  assumes "\<not> cameraReady s \<or> readyState webcam < 2"
  shows "WebcamSourceNode_onExecute mirror webcam now has2d s
           = (\<lparr>out_frame = None, out_timeMs = now\<rparr>, s)"
  using assms by (auto simp: WebcamSourceNode_onExecute_def)

theorem source_not_ready_witness:
  "\<not> cameraReady initial_state
   \<and> WebcamSourceNode_onExecute True \<lparr>readyState = 4, videoWidth = 640, videoHeight = 480\<rparr>
        1000 True initial_state
       = (\<lparr>out_frame = None, out_timeMs = 1000\<rparr>, initial_state)"
proof -
  have h: "\<not> cameraReady initial_state
             \<or> readyState \<lparr>readyState = 4, videoWidth = 640, videoHeight = 480\<rparr> < 2"
    by (simp add: initial_state_def)
  from source_not_ready [OF h, of True 1000 True] h show ?thesis by simp
qed

subsection \<open>Extractors\<close>

text \<open>
  C4: in every tick in which the frame is \<^verbatim>\<open>null\<close> or the inference backend is not
  initialised (the models are not ready, or the landmarker is missing), the face
  Extractor and the hand Extractor each put \<^verbatim>\<open>null\<close> on the landmarks port and \<^verbatim>\<open>null\<close> on
  the metrics port, and return normally (\<open>Inr\<close>) without calling the landmarker.
\<close>

theorem extractor_no_signal:
  "(frame = None \<or> \<not> modelsReady s \<or> faceLandmarker s = None \<longrightarrow>
      FaceExtractNode_onExecute frame timeIn now s
        = Inr (\<lparr>face_landmarks = None, face_metrics = None\<rparr>, s\<lparr>lastFaceMetrics := None\<rparr>))
   \<and> (frame = None \<or> \<not> modelsReady s \<or> handLandmarker s = None \<longrightarrow>
      HandExtractNode_onExecute frame timeIn now s
        = Inr (\<lparr>hand_landmarks = None, hand_metrics = None\<rparr>, s\<lparr>lastHandMetrics := None\<rparr>))"
  by (auto simp: FaceExtractNode_onExecute_def HandExtractNode_onExecute_def
           split: option.splits bool.splits)

theorem extractor_no_signal_witness:
  "FaceExtractNode_onExecute None (Some 1000) 1001 initial_state
     = Inr (\<lparr>face_landmarks = None, face_metrics = None\<rparr>,
            initial_state\<lparr>lastFaceMetrics := None\<rparr>)
   \<and> \<not> modelsReady initial_state
   \<and> HandExtractNode_onExecute (Some SourceCanvas) (Some 1000) 1001 initial_state
     = Inr (\<lparr>hand_landmarks = None, hand_metrics = None\<rparr>,
            initial_state\<lparr>lastHandMetrics := None\<rparr>)"
  using extractor_no_signal [of None initial_state "Some 1000" 1001]
    extractor_no_signal [of "Some SourceCanvas" initial_state "Some 1000" 1001]
  by (simp add: initial_state_def)

text \<open>
  C10: when the face Extractor has a frame and an initialised backend and the inference
  finds no face (an empty list, or no list at all), it puts the empty landmark list on
  the landmarks port and the record \<open>count = 0, noseX = 0.5, noseY = 0.5, jaw = 0\<close> on the
  metrics port, not \<^verbatim>\<open>null\<close>.
\<close>

theorem face_zero_faces:
  assumes "modelsReady s" and "faceLandmarker s = Some detect"
    and "detect (canvases s fr) (nullish timeIn now) = Inr result"
    and "nullish result [] = []"
  shows "FaceExtractNode_onExecute (Some fr) timeIn now s
           = Inr (\<lparr>face_landmarks = Some [],
                   face_metrics =
                     Some \<lparr>face_count = 0, noseX = 0.5, noseY = 0.5, face_jaw = 0\<rparr>\<rparr>,
                  s\<lparr>lastFaceMetrics :=
                      Some \<lparr>face_count = 0, noseX = 0.5, noseY = 0.5, face_jaw = 0\<rparr>\<rparr>)"
  using assms
  by (simp add: FaceExtractNode_onExecute_def face_metrics_of_def elem_at_def Let_def)

theorem face_zero_faces_witness:
  "modelsReady (initial_state\<lparr>modelsReady := True,
                  faceLandmarker := Some (\<lambda>c t. Inr (Some []))\<rparr>)
   \<and> FaceExtractNode_onExecute (Some SourceCanvas) (Some 1000) 1001
        (initial_state\<lparr>modelsReady := True, faceLandmarker := Some (\<lambda>c t. Inr (Some []))\<rparr>)
      = Inr (\<lparr>face_landmarks = Some [],
              face_metrics = Some \<lparr>face_count = 0, noseX = 0.5, noseY = 0.5, face_jaw = 0\<rparr>\<rparr>,
             initial_state\<lparr>modelsReady := True,
               faceLandmarker := Some (\<lambda>c t. Inr (Some [])),
               lastFaceMetrics :=
                 Some \<lparr>face_count = 0, noseX = 0.5, noseY = 0.5, face_jaw = 0\<rparr>\<rparr>)"
  using face_zero_faces [of "initial_state\<lparr>modelsReady := True,
      faceLandmarker := Some (\<lambda>c t. Inr (Some []))\<rparr>"
      "\<lambda>c t. Inr (Some [])" SourceCanvas "Some 1000" 1001 "Some []"]
  by (simp add: nullish_def)

lemma hand_metrics_pinch:
  assumes "8 < length hand"
  shows "hand_pinch (hand_metrics_of (hand # others))
           = clamp (1 - 8 * sqrt ((lm_x (hand ! 4) - lm_x (hand ! 8))\<^sup>2
                                   + (lm_y (hand ! 4) - lm_y (hand ! 8))\<^sup>2)) 0 1"
  using assms
  by (simp add: hand_metrics_of_def elem_at_def distance2d_def hypot_def Let_def mult.commute)

text \<open>
  C3: when the hand Extractor runs the inference and a hand is detected (the first hand
  of the result, with its thumb tip at index 4 and its index-finger tip at index 8), the
  pinch metric is \<open>1 - 8 * d\<close> clamped into the interval from 0 to 1, where \<open>d\<close> is the
  Euclidean distance between the two tips. The Mapper passes the metric on as its pinch
  control, so that a distance of 0.02 gives the pinch control 0.84.
\<close>

theorem hand_pinch_metric:
  assumes "modelsReady s" and "handLandmarker s = Some detect"
    and "detect (canvases s fr) (nullish timeIn now) = Inr (Some (hand # others))"
    and "8 < length hand"
    and "d = sqrt ((lm_x (hand ! 4) - lm_x (hand ! 8))\<^sup>2
                   + (lm_y (hand ! 4) - lm_y (hand ! 8))\<^sup>2)"
  shows "\<exists>lms m s'. HandExtractNode_onExecute (Some fr) timeIn now s
                       = Inr (\<lparr>hand_landmarks = lms, hand_metrics = Some m\<rparr>, s')
           \<and> hand_pinch m = max 0 (min 1 (1 - 8 * d))
           \<and> 0 \<le> hand_pinch m \<and> hand_pinch m \<le> 1
           \<and> pinch (GestureMapperNode_onExecute faceIn (Some (partial_hand m))) = hand_pinch m
           \<and> (d = 0.02 \<longrightarrow>
                pinch (GestureMapperNode_onExecute faceIn (Some (partial_hand m))) = 0.84)"
proof -
  let ?m = "hand_metrics_of (hand # others)"
  have run: "HandExtractNode_onExecute (Some fr) timeIn now s
      = Inr (\<lparr>hand_landmarks = Some (hand # others), hand_metrics = Some ?m\<rparr>,
             s\<lparr>lastHandMetrics := Some ?m\<rparr>)"
    using assms(1-3) by (simp add: HandExtractNode_onExecute_def nullish_def Let_def)
  have p: "hand_pinch ?m = max 0 (min 1 (1 - 8 * d))"
    using hand_metrics_pinch [OF assms(4), of others] assms(5) by (simp add: clamp_def)
  have mp: "pinch (GestureMapperNode_onExecute faceIn (Some (partial_hand ?m))) = hand_pinch ?m"
    by (simp add: GestureMapperNode_onExecute_def partial_hand_def nullish_def Let_def)
  have v: "d = 0.02 \<longrightarrow> hand_pinch ?m = 0.84"
    using p by simp
  from run p mp v show ?thesis by auto
qed

theorem hand_pinch_metric_witness:
  "\<exists>lms m s'.
     HandExtractNode_onExecute (Some SourceCanvas) (Some 1000) 1001
       (initial_state\<lparr>modelsReady := True,
          handLandmarker := Some (\<lambda>c t. Inr (Some [pinched_hand]))\<rparr>)
       = Inr (\<lparr>hand_landmarks = lms, hand_metrics = Some m\<rparr>, s')
     \<and> pinch (GestureMapperNode_onExecute None (Some (partial_hand m))) = 0.84"
proof -
  let ?s = "initial_state\<lparr>modelsReady := True,
               handLandmarker := Some (\<lambda>c t. Inr (Some [pinched_hand]))\<rparr>"
  have len: "8 < length pinched_hand"
    by (simp add: pinched_hand_def)
  have "sqrt ((lm_x (pinched_hand ! 4) - lm_x (pinched_hand ! 8))\<^sup>2
              + (lm_y (pinched_hand ! 4) - lm_y (pinched_hand ! 8))\<^sup>2) = sqrt ((0.02)\<^sup>2)"
    by (simp add: pinched_hand_def power2_eq_square)
  then have d: "0.02 = sqrt ((lm_x (pinched_hand ! 4) - lm_x (pinched_hand ! 8))\<^sup>2
              + (lm_y (pinched_hand ! 4) - lm_y (pinched_hand ! 8))\<^sup>2)"
    by (simp only: real_sqrt_abs) simp
  have m: "modelsReady ?s"
    and l: "handLandmarker ?s = Some (\<lambda>c t. Inr (Some [pinched_hand]))"
    by simp_all
  have r: "(\<lambda>c t. Inr (Some [pinched_hand])) (canvases ?s SourceCanvas)
             (nullish (Some 1000) 1001) = Inr (Some [pinched_hand])"
    by simp
  from hand_pinch_metric [where fr = SourceCanvas and timeIn = "Some 1000" and now = 1001
      and faceIn = None, OF m l r len d]
  show ?thesis
    by auto
qed

subsection \<open>Gesture Mapper\<close>

text \<open>
  C5: when both metrics inputs of the Mapper are \<^verbatim>\<open>null\<close>, its control record is
  presence 0 with the neutral values tilt 0, lift 0.5, pinch 0 and jaw 0; the Mapper is a
  total function, it raises nothing. In general the presence is 1 exactly when the
  metrics record of some modality is there with a nonzero count, and 0 otherwise.
\<close>

theorem mapper_neutral:
  "GestureMapperNode_onExecute None None
     = \<lparr>tilt = 0, lift = 0.5, pinch = 0, jaw = 0, presence = 0\<rparr>
   \<and> (presence (GestureMapperNode_onExecute faceIn handIn) = 1 \<longleftrightarrow>
        (\<exists>m c. faceIn = Some m \<and> pf_count m = Some c \<and> c \<noteq> 0)
        \<or> (\<exists>m c. handIn = Some m \<and> ph_count m = Some c \<and> c \<noteq> 0))
   \<and> (presence (GestureMapperNode_onExecute faceIn handIn) \<noteq> 1 \<longrightarrow>
        presence (GestureMapperNode_onExecute faceIn handIn) = 0)"
  by (auto simp: GestureMapperNode_onExecute_def nullish_def truthy_def empty_face_def
        empty_hand_def Let_def split: option.splits)

theorem mapper_neutral_witness:
  "presence (GestureMapperNode_onExecute None
      (Some \<lparr>ph_count = Some 1, ph_pinch = Some 0.84, ph_palmY = Some 0.5\<rparr>)) = 1
   \<and> presence (GestureMapperNode_onExecute
      (Some \<lparr>pf_count = Some 0, pf_noseX = Some 0.5, pf_noseY = Some 0.5, pf_jaw = Some 0\<rparr>)
      None) = 0"
  using mapper_neutral [of None
      "Some \<lparr>ph_count = Some 1, ph_pinch = Some 0.84, ph_palmY = Some 0.5\<rparr>"]
    mapper_neutral [of
      "Some \<lparr>pf_count = Some 0, pf_noseX = Some 0.5, pf_noseY = Some 0.5, pf_jaw = Some 0\<rparr>"
      None]
  by simp

subsection \<open>Landmark Overlay\<close>

text \<open>
  C9: when the frame input of the Overlay node is \<^verbatim>\<open>null\<close>, the node puts \<^verbatim>\<open>null\<close> on its
  image port and leaves the whole state as it is. When there is a frame but no 2D context
  for the overlay canvas, the node puts \<^verbatim>\<open>null\<close> on its image port and issues no drawing
  command: the commands recorded on each canvas are those recorded before, or none for
  the overlay canvas when it was resized.
\<close>

theorem overlay_no_output:
  "LandmarkOverlayNode_onExecute showFace showHands None facesIn handsIn has2d s = (None, s)
   \<and> fst (LandmarkOverlayNode_onExecute showFace showHands (Some frame) facesIn handsIn False s)
       = None
   \<and> (ops (canvases
         (snd (LandmarkOverlayNode_onExecute showFace showHands (Some frame) facesIn handsIn
            False s)) i) = ops (canvases s i)
       \<or> i = OverlayCanvas
          \<and> ops (canvases
              (snd (LandmarkOverlayNode_onExecute showFace showHands (Some frame) facesIn
                 handsIn False s)) i) = [])"
  by (simp add: LandmarkOverlayNode_onExecute_def Let_def on_canvas_def set_width_def
        set_height_def)

theorem overlay_no_output_witness:
  "LandmarkOverlayNode_onExecute True True None (Some []) (Some [pinched_hand]) True running_state
     = (None, running_state)
   \<and> fst (LandmarkOverlayNode_onExecute True True (Some SourceCanvas) (Some [])
            (Some [pinched_hand]) False running_state) = None
   \<and> ops (canvases (snd (LandmarkOverlayNode_onExecute True True (Some SourceCanvas) (Some [])
            (Some [pinched_hand]) False running_state)) OverlayCanvas) = []
   \<and> cv_width (canvases (snd (LandmarkOverlayNode_onExecute True True (Some SourceCanvas)
            (Some []) (Some [pinched_hand]) False running_state)) OverlayCanvas) = 640"
  using overlay_no_output [of True True "Some []" "Some [pinched_hand]" True running_state
      SourceCanvas OverlayCanvas]
  by (simp add: LandmarkOverlayNode_onExecute_def Let_def on_canvas_def set_width_def
        set_height_def running_state_def initial_state_def new_canvas_def)

lemma overlay_draws:
  "\<exists>before rest.
     ops (canvases (snd (LandmarkOverlayNode_onExecute showFace showHands (Some frame) facesIn
            handsIn True s)) OverlayCanvas)
       = before @ ClearRect 0 0 (real (cv_width (canvases s frame)))
                    (real (cv_height (canvases s frame)))
         # DrawImage (CanvasImage frame) 0 0 None # rest"
proof -
  define s1 where "s1 = (if cv_width (canvases s OverlayCanvas) \<noteq> cv_width (canvases s frame)
                         \<or> cv_height (canvases s OverlayCanvas) \<noteq> cv_height (canvases s frame)
                      then on_canvas OverlayCanvas (set_height (cv_height (canvases s frame))
                             \<circ> set_width (cv_width (canvases s frame))) s
                      else s)"
  define W where "W = real (cv_width (canvases s1 OverlayCanvas))"
  define H where "H = real (cv_height (canvases s1 OverlayCanvas))"
  define rest where "rest =
      (if showFace
       then (case elem_at (nullish facesIn []) 0 of None \<Rightarrow> []
             | Some f \<Rightarrow> drawPoints f ''#f97316'' 1.6 5 W H)
       else [])
      @ (if showHands
         then concat (map (\<lambda>hand. drawHandConnections hand ''#38bdf8'' W H
                @ drawPoints hand ''#22d3ee'' 2.4 1 W H) (nullish handsIn []))
         else [])"
  have run: "snd (LandmarkOverlayNode_onExecute showFace showHands (Some frame) facesIn
            handsIn True s)
      = on_canvas OverlayCanvas
          (draw ([ClearRect 0 0 W H, DrawImage (CanvasImage frame) 0 0 None] @ rest)) s1"
    unfolding LandmarkOverlayNode_onExecute_def Let_def s1_def W_def H_def rest_def by simp
  have W: "W = real (cv_width (canvases s frame))"
    and H: "H = real (cv_height (canvases s frame))"
    unfolding W_def H_def s1_def
    by (auto simp: on_canvas_def set_width_def set_height_def)
  have "ops (canvases (snd (LandmarkOverlayNode_onExecute showFace showHands (Some frame)
            facesIn handsIn True s)) OverlayCanvas)
      = ops (canvases s1 OverlayCanvas)
        @ ClearRect 0 0 (real (cv_width (canvases s frame)))
            (real (cv_height (canvases s frame)))
        # DrawImage (CanvasImage frame) 0 0 None # rest"
    unfolding run W H by (simp add: on_canvas_def draw_def)
  then show ?thesis by blast
qed

text \<open>
  C7, as amended: for every tick with a frame that is not the overlay canvas itself,
  the Overlay node leaves the frame's canvas as it is and touches no canvas but the overlay
  canvas; after the tick the overlay canvas has the width and the height of the frame;
  its bitmap is reallocated only if its size differed from the frame's before the tick;
  and with a 2D context the node clears the overlay canvas, draws the frame on it and puts
  it on the image port.
\<close>

theorem overlay_scratch:
  assumes "frame \<noteq> OverlayCanvas"
    and "LandmarkOverlayNode_onExecute showFace showHands (Some frame) facesIn handsIn has2d s
           = (out, s')"
  shows "canvases s' frame = canvases s frame
    \<and> (\<forall>i. i \<noteq> OverlayCanvas \<longrightarrow> canvases s' i = canvases s i)
    \<and> cv_width (canvases s' OverlayCanvas) = cv_width (canvases s frame)
    \<and> cv_height (canvases s' OverlayCanvas) = cv_height (canvases s frame)
    \<and> (reallocs (canvases s' OverlayCanvas) \<noteq> reallocs (canvases s OverlayCanvas) \<longrightarrow>
           cv_width (canvases s OverlayCanvas) \<noteq> cv_width (canvases s frame)
           \<or> cv_height (canvases s OverlayCanvas) \<noteq> cv_height (canvases s frame))
    \<and> (has2d \<longrightarrow> out = Some OverlayCanvas
          \<and> (\<exists>before rest. ops (canvases s' OverlayCanvas)
                = before @ ClearRect 0 0 (real (cv_width (canvases s frame)))
                             (real (cv_height (canvases s frame)))
                  # DrawImage (CanvasImage frame) 0 0 None # rest))"
proof -
  have drawn: "\<exists>before rest. ops (canvases s' OverlayCanvas)
                = before @ ClearRect 0 0 (real (cv_width (canvases s frame)))
                             (real (cv_height (canvases s frame)))
                  # DrawImage (CanvasImage frame) 0 0 None # rest" if has2d
    using overlay_draws [of showFace showHands frame facesIn handsIn s] assms(2) that
    by simp
  have "canvases s' frame = canvases s frame
    \<and> (\<forall>i. i \<noteq> OverlayCanvas \<longrightarrow> canvases s' i = canvases s i)
    \<and> cv_width (canvases s' OverlayCanvas) = cv_width (canvases s frame)
    \<and> cv_height (canvases s' OverlayCanvas) = cv_height (canvases s frame)
    \<and> (reallocs (canvases s' OverlayCanvas) \<noteq> reallocs (canvases s OverlayCanvas) \<longrightarrow>
           cv_width (canvases s OverlayCanvas) \<noteq> cv_width (canvases s frame)
           \<or> cv_height (canvases s OverlayCanvas) \<noteq> cv_height (canvases s frame))
    \<and> (has2d \<longrightarrow> out = Some OverlayCanvas)"
    using assms
    by (auto simp: LandmarkOverlayNode_onExecute_def Let_def on_canvas_def set_width_def
        set_height_def draw_def split: if_splits)
  with drawn show ?thesis by blast
qed

text \<open>
  C7 as stated fails: the overlay canvas is one canvas of the application, shared by
  every Overlay node, and it is what an Overlay node puts on its image port. An Overlay
  node fed by an Overlay node receives the overlay canvas as its frame, and clears and
  redraws it: the input frame is mutated.
\<close>

theorem overlay_scratch_counterexample:
  "canvases (snd (LandmarkOverlayNode_onExecute True True (Some OverlayCanvas) None None True
       running_state)) OverlayCanvas
     \<noteq> canvases running_state OverlayCanvas
   \<and> ops (canvases (snd (LandmarkOverlayNode_onExecute True True (Some OverlayCanvas) None None
       True running_state)) OverlayCanvas)
     = [ClearRect 0 0 300 150, DrawImage (CanvasImage OverlayCanvas) 0 0 None]"
  by (simp add: LandmarkOverlayNode_onExecute_def Let_def on_canvas_def
        draw_def running_state_def initial_state_def new_canvas_def nullish_def elem_at_def)

theorem overlay_scratch_witness:
  "\<exists>s'. LandmarkOverlayNode_onExecute True True (Some SourceCanvas) None None True running_state
          = (Some OverlayCanvas, s')
     \<and> canvases s' SourceCanvas = canvases running_state SourceCanvas
     \<and> cv_width (canvases s' OverlayCanvas) = 640
     \<and> cv_height (canvases s' OverlayCanvas) = 480"
proof -
  obtain out s' where r: "LandmarkOverlayNode_onExecute True True (Some SourceCanvas) None None
      True running_state = (out, s')"
    by (cases "LandmarkOverlayNode_onExecute True True (Some SourceCanvas) None None
      True running_state") auto
  have ne: "SourceCanvas \<noteq> OverlayCanvas" by simp
  from overlay_scratch [OF ne r] r show ?thesis
    by (simp add: running_state_def)
qed

subsection \<open>The trail buffer\<close>

lemma decay_drop:
  "0 \<le> d \<Longrightarrow>
   filter (\<lambda>p. life p > 0) (map (\<lambda>p. p\<lparr>life := max 0 (life p - d)\<rparr>) tr)
     = map (\<lambda>q. q\<lparr>life := life q - d\<rparr>) (filter (\<lambda>q. life q > d) tr)"
  by (induction tr) auto

lemma trail_tick_eq:
  "trail_tick cx cy p tr
     = map (\<lambda>q. q\<lparr>life := life q - 0.02\<rparr>)
         (filter (\<lambda>q. life q > 0.02)
            (if p > 0
             then (let t = tr @ [\<lparr>tp_x = cx, tp_y = cy, life = 1\<rparr>]
                   in if length t > 45 then tl t else t)
             else tr))"
  unfolding trail_tick_def Let_def by (rule decay_drop) simp

lemma trail_tick_absent:
  "\<not> p > 0 \<Longrightarrow> trail_tick cx cy p tr
     = map (\<lambda>q. q\<lparr>life := life q - 0.02\<rparr>) (filter (\<lambda>q. life q > 0.02) tr)"
  by (simp add: trail_tick_eq)

lemma trail_tick_present:
  assumes "p > 0"
  shows "trail_tick cx cy p tr
     = map (\<lambda>q. q\<lparr>life := life q - 0.02\<rparr>)
         (filter (\<lambda>q. life q > 0.02) (if length tr < 45 then tr else tl tr))
       @ [\<lparr>tp_x = cx, tp_y = cy, life = 0.98\<rparr>]"
proof -
  have "tl (tr @ [\<lparr>tp_x = cx, tp_y = cy, life = 1\<rparr>]) = tl tr @ [\<lparr>tp_x = cx, tp_y = cy, life = 1\<rparr>]"
    if "45 \<le> length tr"
    using that by (cases tr) auto
  then show ?thesis
    using assms by (auto simp: trail_tick_eq Let_def) 
qed

lemma trail_tick_length:
  assumes "length tr \<le> 45"
  shows "length (trail_tick cx cy p tr) \<le> 45"
proof (cases "p > 0")
  case False
  then show ?thesis
    using le_trans [OF length_filter_le assms] by (simp add: trail_tick_absent)
next
  case True
  have "length (if length tr < 45 then tr else tl tr) \<le> 44"
    using assms by auto
  from le_trans [OF length_filter_le this]
  show ?thesis
    using True by (simp add: trail_tick_present)
qed

lemma run_trail_length:
  "length tr \<le> 45 \<Longrightarrow> length (run_trail inputs tr) \<le> 45"
  by (induction inputs tr rule: run_trail.induct) (auto simp: trail_tick_length)

lemma spec_decay_drop:
  "filter (\<lambda>p. \<not> life p \<le> 0) (map (\<lambda>p. p\<lparr>life := life p - d\<rparr>) tr)
     = map (\<lambda>q. q\<lparr>life := life q - d\<rparr>) (filter (\<lambda>q. life q > d) tr)"
  by (induction tr) auto

lemma length_decay_drop:
  "length (map (\<lambda>q. q\<lparr>life := life q - d\<rparr>) (filter (\<lambda>q. life q > d) tr)) \<le> length tr"
  by simp

lemma spec_trail_tick_length:
  assumes "length tr \<le> 45"
  shows "length (spec_trail_tick d 45 cx cy p tr) \<le> 45"
proof -
  have "length (filter (\<lambda>q. life q > d) tr) \<le> 45"
    using le_trans [OF length_filter_le assms] .
  then show ?thesis
    unfolding spec_trail_tick_def Let_def spec_decay_drop by auto
qed

lemma spec_step:
  assumes "length tr \<le> 45" and "0 \<le> p"
  shows "trail_tick cx cy p
           (map (\<lambda>q. q\<lparr>life := life q - 0.02\<rparr>) (filter (\<lambda>q. life q > 0.02) tr))
         = map (\<lambda>q. q\<lparr>life := life q - 0.02\<rparr>)
             (filter (\<lambda>q. life q > 0.02) (spec_trail_tick 0.02 45 cx cy p tr))"
proof -
  let ?D = "\<lambda>t. map (\<lambda>q. q\<lparr>life := life q - 0.02\<rparr>) (filter (\<lambda>q. life q > 0.02) t)"
  have len: "length (?D tr) \<le> 45"
    using le_trans [OF length_decay_drop assms(1)] .
  show ?thesis
  proof (cases "p > 0")
    case True
    then show ?thesis
      unfolding trail_tick_eq spec_trail_tick_def Let_def spec_decay_drop by simp
  next
    case False
    with assms(2) have "p = 0" by simp
    then show ?thesis
      unfolding trail_tick_eq spec_trail_tick_def Let_def spec_decay_drop using len by simp
  qed
qed

lemma run_trail_spec:
  assumes "length tr \<le> 45" and "list_all (\<lambda>(cx, cy, p). 0 \<le> p) inputs"
  shows "run_trail inputs
           (map (\<lambda>q. q\<lparr>life := life q - 0.02\<rparr>) (filter (\<lambda>q. life q > 0.02) tr))
         = map (\<lambda>q. q\<lparr>life := life q - 0.02\<rparr>)
             (filter (\<lambda>q. life q > 0.02) (spec_run_trail 0.02 45 inputs tr))"
  using assms
proof (induction inputs arbitrary: tr)
  case Nil
  show ?case by simp
next
  case (Cons i rest)
  obtain cx cy p where i: "i = (cx, cy, p)"
    by (cases i) auto
  from Cons.prems i have p: "0 \<le> p" and rest: "list_all (\<lambda>(cx, cy, p). 0 \<le> p) rest"
    by simp_all
  have len: "length (spec_trail_tick 0.02 45 cx cy p tr) \<le> 45"
    using spec_trail_tick_length [OF Cons.prems(1)] .
  show ?case
    unfolding i run_trail.simps spec_run_trail.simps spec_step [OF Cons.prems(1) p]
    using Cons.IH [OF len rest] .
qed

text \<open>
  C2, as amended: in every call of \<^verbatim>\<open>drawStage\<close>, when the presence is positive a new
  point with life 1 is appended first (and the oldest point evicted if there were already
  45); then every point, the new one included, loses 0.02 of life, and the points whose
  life is zero or less are dropped. So the new point is stored with life 0.98, and with
  no positive presence the buffer only decays. The length stays within 45, and is within
  45 after any number of ticks from the empty buffer. The buffer after N ticks is
  determined by the sequence of inputs: for presences that are zero or more it is the
  buffer of the specification's decay-then-append rule, decayed once more.
\<close>

theorem trail_rule:
  "(\<not> p > 0 \<longrightarrow> trail_tick cx cy p tr
       = map (\<lambda>q. q\<lparr>life := life q - 0.02\<rparr>) (filter (\<lambda>q. life q > 0.02) tr))
   \<and> (p > 0 \<longrightarrow> trail_tick cx cy p tr
       = map (\<lambda>q. q\<lparr>life := life q - 0.02\<rparr>)
           (filter (\<lambda>q. life q > 0.02) (if length tr < 45 then tr else tl tr))
         @ [\<lparr>tp_x = cx, tp_y = cy, life = 0.98\<rparr>])
   \<and> (length tr \<le> 45 \<longrightarrow> length (trail_tick cx cy p tr) \<le> 45)
   \<and> length (run_trail inputs []) \<le> 45
   \<and> (list_all (\<lambda>(cx, cy, p). 0 \<le> p) inputs \<longrightarrow>
        run_trail inputs []
          = map (\<lambda>q. q\<lparr>life := life q - 0.02\<rparr>)
              (filter (\<lambda>q. life q > 0.02) (spec_run_trail 0.02 45 inputs [])))"
proof -
  have "run_trail inputs []
          = map (\<lambda>q. q\<lparr>life := life q - 0.02\<rparr>)
              (filter (\<lambda>q. life q > 0.02) (spec_run_trail 0.02 45 inputs []))"
    if "list_all (\<lambda>(cx, cy, p). 0 \<le> p) inputs"
    using run_trail_spec [of "[]" inputs] that by simp
  moreover have "length (run_trail inputs []) \<le> 45"
    by (rule run_trail_length) simp
  ultimately show ?thesis
    using trail_tick_absent [of p cx cy tr] trail_tick_present [of p cx cy tr]
      trail_tick_length [of tr cx cy p]
    by blast
qed

text \<open>
  C2 as stated fails: replaying the decay-then-append rule of the specification does
  not give the buffer of the program. After one tick with presence 1 the program holds a
  point of life 0.98, the rule a point of life 1.
\<close>

theorem trail_rule_counterexample:
  "run_trail [(10, 20, 1)] [] = [\<lparr>tp_x = 10, tp_y = 20, life = 0.98\<rparr>]
   \<and> spec_run_trail 0.02 45 [(10, 20, 1)] [] = [\<lparr>tp_x = 10, tp_y = 20, life = 1\<rparr>]
   \<and> run_trail [(10, 20, 1)] [] \<noteq> spec_run_trail 0.02 45 [(10, 20, 1)] []"
  by (simp add: trail_tick_def spec_trail_tick_def)

text \<open>
  The presence sequence 1, 1, 0, 0, 1 of the specification, and a tick that drops a dying
  point.
\<close>

theorem trail_rule_witness:
  "run_trail [(10, 20, 1), (10, 20, 1), (10, 20, 0), (10, 20, 0), (10, 20, 1)] []
     = [\<lparr>tp_x = 10, tp_y = 20, life = 0.9\<rparr>, \<lparr>tp_x = 10, tp_y = 20, life = 0.92\<rparr>,
        \<lparr>tp_x = 10, tp_y = 20, life = 0.98\<rparr>]
   \<and> length (run_trail [(10, 20, 1), (10, 20, 1), (10, 20, 0), (10, 20, 0), (10, 20, 1)] [])
       \<le> 45
   \<and> trail_tick 10 20 1 [\<lparr>tp_x = 1, tp_y = 2, life = 0.02\<rparr>, \<lparr>tp_x = 3, tp_y = 4, life = 0.5\<rparr>]
       = [\<lparr>tp_x = 3, tp_y = 4, life = 0.48\<rparr>, \<lparr>tp_x = 10, tp_y = 20, life = 0.98\<rparr>]"
  using trail_rule [of 1 10 20 "[\<lparr>tp_x = 1, tp_y = 2, life = 0.02\<rparr>, \<lparr>tp_x = 3, tp_y = 4, life = 0.5\<rparr>]"
      "[(10, 20, 1), (10, 20, 1), (10, 20, 0), (10, 20, 0), (10, 20, 1)]"]
  by (simp add: spec_trail_tick_def)

subsection \<open>Stage Output\<close>

lemma drawCoverImage_dims:
  assumes "cv_width (cs' i) = cv_width (cs i)" and "cv_height (cs' i) = cv_height (cs i)"
  shows "drawCoverImage cs' i w h = drawCoverImage cs i w h"
  using assms by (simp add: drawCoverImage_def)

lemma stage_backdrop_dims:
  assumes "\<And>i. cv_width (cs' i) = cv_width (cs i)" and "\<And>i. cv_height (cs' i) = cv_height (cs i)"
  shows "stage_backdrop cs' img w h = stage_backdrop cs img w h"
  using drawCoverImage_dims [of cs' _ cs, OF assms] 
  by (simp add: stage_backdrop_def split: option.splits)

lemma drawStage_dims:
  "cv_width (canvases (snd (drawStage img c now s)) i) = cv_width (canvases s i)"
  "cv_height (canvases (snd (drawStage img c now s)) i) = cv_height (canvases s i)"
  by (simp_all add: drawStage_def Let_def on_canvas_def draw_def)

lemma drawStage_fields:
  "modelsReady (snd (drawStage img c now s)) = modelsReady s"
  "cameraReady (snd (drawStage img c now s)) = cameraReady s"
  "frameCounter (snd (drawStage img c now s)) = frameCounter s"
  "lastFaceMetrics (snd (drawStage img c now s)) = lastFaceMetrics s"
  "lastHandMetrics (snd (drawStage img c now s)) = lastHandMetrics s"
  by (simp_all add: drawStage_def Let_def on_canvas_def)

lemma drawStage_trail:
  "trail (snd (drawStage img c now s))
     = trail_tick
         (real (cv_width (canvases s StageCanvas)) * clamp (0.5 + nullish (pc_tilt c) 0 * 1.1) 0.05 0.95)
         (real (cv_height (canvases s StageCanvas)) * clamp (0.7 - nullish (pc_lift c) 0 * 0.8) 0.08 0.92)
         (nullish (pc_presence c) 0) (trail s)"
  by (simp add: drawStage_def Let_def on_canvas_def)

lemma drawStage_cmds:
  "fst (drawStage img c now s)
     = stage_backdrop (canvases s) img (real (cv_width (canvases s StageCanvas)))
         (real (cv_height (canvases s StageCanvas)))
       @ stage_trail (js_rem (now * 0.001 * 85 + nullish (pc_pinch c) 0 * 220) 360)
           (nullish (pc_pinch c) 0) (trail (snd (drawStage img c now s)))
       @ stage_focus
           (real (cv_width (canvases s StageCanvas)) * clamp (0.5 + nullish (pc_tilt c) 0 * 1.1) 0.05 0.95)
           (real (cv_height (canvases s StageCanvas)) * clamp (0.7 - nullish (pc_lift c) 0 * 0.8) 0.08 0.92)
           (40 + nullish (pc_pinch c) 0 * 240 + nullish (pc_jaw c) 0 * 2000)
           (js_rem (now * 0.001 * 85 + nullish (pc_pinch c) 0 * 220) 360)
           (now * 0.001)"
  unfolding drawStage_trail
  by (simp add: drawStage_def Let_def)

lemma StageOutput_parts:
  "stage_cmds (fst (StageOutputNode_onExecute img controlsIn now s))
     = fst (drawStage img (nullish controlsIn empty_controls) now s)"
  "debug (fst (StageOutputNode_onExecute img controlsIn now s))
     = updateDebugOutput (nullish controlsIn empty_controls)
         (snd (drawStage img (nullish controlsIn empty_controls) now s))"
  "snd (StageOutputNode_onExecute img controlsIn now s)
     = snd (drawStage img (nullish controlsIn empty_controls) now s)"
  by (simp_all add: StageOutputNode_onExecute_def Let_def split: prod.splits)

text \<open>
  C6, as amended: two calls of the Output node in succession with the same inputs and a
  zero presence, at the clock readings \<open>now1\<close> and \<open>now2\<close>, publish the same results
  except for the decay of the trail and for what follows the clock. The drawing of a call
  is one function of the clock reading of that call and of the trail as that call has
  decayed it: the backdrop, the position of the focus, the radius of the gradient and the
  pinch are the same in both calls; the clock enters only the hue, which is
  \<open>(t * 85 + pinch * 220) mod 360\<close> for \<open>t\<close> the reading in seconds, and the radius of
  the ring, which is \<open>max 20 (radius * 0.4 + sin (t * 5) * 8)\<close>. Each call decays the trail
  by one step, the debug payload is the same, and with equal clock readings and an empty
  trail the two published results are equal.
\<close>

theorem output_twice:
  assumes "nullish (pc_presence (nullish controlsIn empty_controls)) 0 = 0"
    and "StageOutputNode_onExecute img controlsIn now1 s = (p1, s1)"
    and "StageOutputNode_onExecute img controlsIn now2 s1 = (p2, s2)"
  shows "let c = nullish controlsIn empty_controls;
             w = real (cv_width (canvases s StageCanvas));
             h = real (cv_height (canvases s StageCanvas));
             pn = nullish (pc_pinch c) 0;
             cx = w * clamp (0.5 + nullish (pc_tilt c) 0 * 1.1) 0.05 0.95;
             cy = h * clamp (0.7 - nullish (pc_lift c) 0 * 0.8) 0.08 0.92;
             radius = 40 + pn * 240 + nullish (pc_jaw c) 0 * 2000;
             hue = (\<lambda>clock. js_rem (clock * 0.001 * 85 + pn * 220) 360);
             ring = (\<lambda>clock. max 20 (radius * 0.4 + sin (clock * 0.001 * 5) * 8));
             drawing = (\<lambda>clock tr.
               stage_backdrop (canvases s) img w h
               @ stage_trail (hue clock) pn tr
               @ [SetFillStyle (RadialGradient cx cy 6 cx cy radius
                    [(0, Hsla (hue clock) 96 72 0.55),
                     (0.5, Hsla (js_rem (hue clock + 40) 360) 96 62 0.18),
                     (1, Css ''hsla(240, 80%, 20%, 0)'')]),
                  BeginPath, Arc cx cy radius 0 (pi * 2), Fill, Restore,
                  SetStrokeStyle (Solid (Hsla (hue clock) 90 75 0.8)), SetLineWidth 2,
                  BeginPath, Arc cx cy (ring clock) 0 (pi * 2), Stroke])
         in stage_cmds p1 = drawing now1 (trail s1)
          \<and> stage_cmds p2 = drawing now2 (trail s2)
          \<and> trail s1 = map (\<lambda>q. q\<lparr>life := life q - 0.02\<rparr>)
                          (filter (\<lambda>q. life q > 0.02) (trail s))
          \<and> trail s2 = map (\<lambda>q. q\<lparr>life := life q - 0.02\<rparr>)
                          (filter (\<lambda>q. life q > 0.02) (trail s1))
          \<and> debug p1 = debug p2
          \<and> (now1 = now2 \<and> trail s = [] \<longrightarrow> p1 = p2)"
proof -
  let ?c = "nullish controlsIn empty_controls"
  have s1: "s1 = snd (drawStage img ?c now1 s)" and s2: "s2 = snd (drawStage img ?c now2 s1)"
    using assms(2,3) StageOutput_parts(3) [of img controlsIn] by (metis snd_conv)+
  have c1: "stage_cmds p1 = fst (drawStage img ?c now1 s)"
    and c2: "stage_cmds p2 = fst (drawStage img ?c now2 s1)"
    using assms(2,3) StageOutput_parts(1) [of img controlsIn] by (metis fst_conv)+
  have d1: "debug p1 = updateDebugOutput ?c s1" and d2: "debug p2 = updateDebugOutput ?c s2"
    using assms(2,3) StageOutput_parts(2) [of img controlsIn] s1 s2 by (metis fst_conv)+
  have w: "cv_width (canvases s1 i) = cv_width (canvases s i)"
    and h: "cv_height (canvases s1 i) = cv_height (canvases s i)" for i
    unfolding s1 by (rule drawStage_dims)+
  have bd: "stage_backdrop (canvases s1) img a b = stage_backdrop (canvases s) img a b" for a b
    by (rule stage_backdrop_dims) (rule w h)+
  have t1: "trail s1 = map (\<lambda>q. q\<lparr>life := life q - 0.02\<rparr>) (filter (\<lambda>q. life q > 0.02) (trail s))"
    unfolding s1 drawStage_trail assms(1) by (rule trail_tick_absent) simp
  have t2: "trail s2 = map (\<lambda>q. q\<lparr>life := life q - 0.02\<rparr>) (filter (\<lambda>q. life q > 0.02) (trail s1))"
    unfolding s2 drawStage_trail assms(1) by (rule trail_tick_absent) simp
  have e1: "stage_cmds p1 = fst (drawStage img ?c now1 s)"
    by (rule c1)
  have cmds1: "stage_cmds p1
      = stage_backdrop (canvases s) img (real (cv_width (canvases s StageCanvas)))
          (real (cv_height (canvases s StageCanvas)))
        @ stage_trail (js_rem (now1 * 0.001 * 85 + nullish (pc_pinch ?c) 0 * 220) 360)
            (nullish (pc_pinch ?c) 0) (trail s1)
        @ stage_focus
            (real (cv_width (canvases s StageCanvas)) * clamp (0.5 + nullish (pc_tilt ?c) 0 * 1.1) 0.05 0.95)
            (real (cv_height (canvases s StageCanvas)) * clamp (0.7 - nullish (pc_lift ?c) 0 * 0.8) 0.08 0.92)
            (40 + nullish (pc_pinch ?c) 0 * 240 + nullish (pc_jaw ?c) 0 * 2000)
            (js_rem (now1 * 0.001 * 85 + nullish (pc_pinch ?c) 0 * 220) 360)
            (now1 * 0.001)"
    unfolding c1 drawStage_cmds s1 [symmetric] ..
  have cmds2: "stage_cmds p2
      = stage_backdrop (canvases s) img (real (cv_width (canvases s StageCanvas)))
          (real (cv_height (canvases s StageCanvas)))
        @ stage_trail (js_rem (now2 * 0.001 * 85 + nullish (pc_pinch ?c) 0 * 220) 360)
            (nullish (pc_pinch ?c) 0) (trail s2)
        @ stage_focus
            (real (cv_width (canvases s StageCanvas)) * clamp (0.5 + nullish (pc_tilt ?c) 0 * 1.1) 0.05 0.95)
            (real (cv_height (canvases s StageCanvas)) * clamp (0.7 - nullish (pc_lift ?c) 0 * 0.8) 0.08 0.92)
            (40 + nullish (pc_pinch ?c) 0 * 240 + nullish (pc_jaw ?c) 0 * 2000)
            (js_rem (now2 * 0.001 * 85 + nullish (pc_pinch ?c) 0 * 220) 360)
            (now2 * 0.001)"
    unfolding c2 drawStage_cmds s2 [symmetric] w h bd ..
  have dbg: "debug p1 = debug p2"
    unfolding d1 d2 s2 unfolding s1 by (simp add: updateDebugOutput_def drawStage_fields)
  have same: "p1 = p2" if "now1 = now2" and "trail s = []"
  proof -
    from that(2) t1 have "trail s1 = []" by simp
    moreover from this t2 have "trail s2 = []" by simp
    ultimately have "stage_cmds p1 = stage_cmds p2"
      unfolding cmds1 cmds2 that(1) by simp
    with dbg show ?thesis by simp
  qed
  show ?thesis
    unfolding Let_def
    using cmds1 cmds2 t1 t2 dbg same
    by (simp only: stage_focus_def) blast
qed

text \<open>
  C6 as stated fails: \<^verbatim>\<open>drawStage\<close> reads \<^verbatim>\<open>performance.now()\<close>, and the hue and the radius
  of the ring follow it. Two calls with the same inputs, 16 milliseconds apart, on an
  empty trail (so that nothing decays) publish different drawings.
\<close>

theorem output_twice_counterexample:
  "trail (snd (StageOutputNode_onExecute None (Some neutral_controls) 1000 initial_state)) = []
   \<and> stage_cmds (fst (StageOutputNode_onExecute None (Some neutral_controls) 1016
         (snd (StageOutputNode_onExecute None (Some neutral_controls) 1000 initial_state))))
       \<noteq> stage_cmds (fst (StageOutputNode_onExecute None (Some neutral_controls) 1000
             initial_state))"
proof -
  have a: "js_rem (1000 * 0.001 * 85 + 0 * 220) 360 = 85"
    by (simp add: js_rem_def)
  have b: "js_rem (1016 * 0.001 * 85 + 0 * 220) 360 = 86.36"
    by (simp add: js_rem_def)
  have t: "trail (snd (StageOutputNode_onExecute None (Some neutral_controls) 1000 initial_state)) = []"
    by (simp add: StageOutput_parts drawStage_trail initial_state_def trail_tick_absent
          nullish_def neutral_controls_def partial_controls_def)
  show ?thesis
    unfolding StageOutput_parts drawStage_cmds
    using t a b
    by (simp add: StageOutput_parts nullish_def neutral_controls_def partial_controls_def
          stage_focus_def stage_trail_def stage_backdrop_def drawStage_dims)
qed

theorem output_twice_witness:
  "\<exists>p1 s1 p2 s2.
     StageOutputNode_onExecute None (Some neutral_controls) 1000
       (initial_state\<lparr>trail := [\<lparr>tp_x = 10, tp_y = 20, life = 0.5\<rparr>]\<rparr>) = (p1, s1)
     \<and> StageOutputNode_onExecute None (Some neutral_controls) 1016 s1 = (p2, s2)
     \<and> trail s1 = [\<lparr>tp_x = 10, tp_y = 20, life = 0.48\<rparr>]
     \<and> trail s2 = [\<lparr>tp_x = 10, tp_y = 20, life = 0.46\<rparr>]
     \<and> debug p1 = debug p2
     \<and> SetStrokeStyle (Solid (Hsla 85 90 75 0.8)) \<in> set (stage_cmds p1)
     \<and> SetStrokeStyle (Solid (Hsla 86.36 90 75 0.8)) \<in> set (stage_cmds p2)"
proof -
  let ?s = "initial_state\<lparr>trail := [\<lparr>tp_x = 10, tp_y = 20, life = 0.5\<rparr>]\<rparr>"
  obtain p1 s1 where r1: "StageOutputNode_onExecute None (Some neutral_controls) 1000 ?s = (p1, s1)"
    by (cases "StageOutputNode_onExecute None (Some neutral_controls) 1000 ?s") auto
  obtain p2 s2 where r2: "StageOutputNode_onExecute None (Some neutral_controls) 1016 s1 = (p2, s2)"
    by (cases "StageOutputNode_onExecute None (Some neutral_controls) 1016 s1") auto
  have z: "nullish (pc_presence (nullish (Some neutral_controls) empty_controls)) 0 = 0"
    by (simp add: nullish_def neutral_controls_def partial_controls_def)
  have a: "js_rem (1000 * 0.001 * 85 + 0 * 220) 360 = 85"
    by (simp add: js_rem_def)
  have b: "js_rem (1016 * 0.001 * 85 + 0 * 220) 360 = 86.36"
    by (simp add: js_rem_def)
  have pn: "nullish (pc_pinch (nullish (Some neutral_controls) empty_controls)) 0 = 0"
    by (simp add: nullish_def neutral_controls_def partial_controls_def)
  from output_twice [OF z r1 r2]
  have "trail s1 = [\<lparr>tp_x = 10, tp_y = 20, life = 0.48\<rparr>]
     \<and> trail s2 = [\<lparr>tp_x = 10, tp_y = 20, life = 0.46\<rparr>]
     \<and> debug p1 = debug p2
     \<and> SetStrokeStyle (Solid (Hsla 85 90 75 0.8)) \<in> set (stage_cmds p1)
     \<and> SetStrokeStyle (Solid (Hsla 86.36 90 75 0.8)) \<in> set (stage_cmds p2)"
    unfolding Let_def pn a b by simp
  with r1 r2 show ?thesis by blast
qed

section \<open>Properties of the scheduler\<close>

lemma some_node_ready:
  assumes acyc: "acyclic (set (map (\<lambda>e. (src e, dst e)) es))"
    and inside: "\<And>e. e \<in> set es \<Longrightarrow> src e \<in> set pending \<union> set emitted"
    and nonempty: "pending \<noteq> []"
  shows "\<exists>n \<in> set pending. ready es emitted n"
proof -
  let ?R = "set (map (\<lambda>e. (src e, dst e)) es)"
  have "wf ?R"
    using acyc by (intro finite_acyclic_wf) simp_all
  moreover from nonempty have "hd pending \<in> set pending"
    by simp
  ultimately obtain z where z: "z \<in> set pending"
    and least: "\<And>y. (y, z) \<in> ?R \<Longrightarrow> y \<notin> set pending"
    using wfE_min [of ?R "hd pending" "set pending"] by blast
  have "ready es emitted z"
    unfolding ready_def list_all_iff
  proof
    fix e
    assume e: "e \<in> set es"
    show "dst e \<noteq> z \<or> src e \<in> set emitted"
    proof (cases "dst e = z")
      case True
      with e have "(src e, z) \<in> ?R"
        by force
      then have "src e \<notin> set pending"
        by (rule least)
      with inside [OF e] show ?thesis
        by simp
    next
      case False
      then show ?thesis by simp
    qed
  qed
  with z show ?thesis by blast
qed

lemma precedes_snoc_old:
  assumes "b \<in> set xs" and "precedes xs a b"
  shows "precedes (xs @ [n]) a b"
  using assms by (auto simp: precedes_def)

lemma precedes_snoc_new:
  assumes "n \<notin> set xs" and "a \<in> set xs"
  shows "precedes (xs @ [n]) a n"
proof -
  have "takeWhile (\<lambda>x. x \<noteq> n) (xs @ [n]) = xs"
    using assms(1) by (induction xs) auto
  with assms(2) show ?thesis
    by (simp add: precedes_def)
qed

lemma kahn_correct:
  assumes "acyclic (set (map (\<lambda>e. (src e, dst e)) es))"
    and "\<And>e. e \<in> set es \<Longrightarrow> src e \<in> set pending \<union> set emitted"
    and "distinct pending" and "distinct emitted" and "set pending \<inter> set emitted = {}"
    and "\<And>e. e \<in> set es \<Longrightarrow> dst e \<in> set emitted \<Longrightarrow> precedes emitted (src e) (dst e)"
  shows "\<exists>order. kahn es pending emitted = Some order
           \<and> distinct order \<and> set order = set pending \<union> set emitted
           \<and> (\<forall>e \<in> set es. dst e \<in> set order \<longrightarrow> precedes order (src e) (dst e))"
  using assms
proof (induction es pending emitted rule: kahn.induct)
  case (1 es pending emitted)
  show ?case
  proof (cases "pending = []")
    case True
    with "1.prems" show ?thesis
      by (subst kahn.simps) auto
  next
    case False
    from some_node_ready [OF "1.prems"(1,2) False]
    obtain n where n: "find (ready es emitted) pending = Some n"
      by (cases "find (ready es emitted) pending") (auto simp: find_None_iff)
    then have n_in: "n \<in> set pending" and n_ready: "ready es emitted n"
      by (auto simp: find_Some_iff)
    from n_in "1.prems"(5) have n_new: "n \<notin> set emitted"
      by auto
    have inside: "src e \<in> set (remove1 n pending) \<union> set (emitted @ [n])" if "e \<in> set es" for e
      using "1.prems"(2) [OF that] "1.prems"(3) by auto
    have d1: "distinct (remove1 n pending)"
      using "1.prems"(3) by simp
    have d2: "distinct (emitted @ [n])"
      using "1.prems"(4) n_new by simp
    have d3: "set (remove1 n pending) \<inter> set (emitted @ [n]) = {}"
      using "1.prems"(3,5) by auto
    have ord: "precedes (emitted @ [n]) (src e) (dst e)"
      if e: "e \<in> set es" and d: "dst e \<in> set (emitted @ [n])" for e
    proof (cases "dst e = n")
      case True
      from n_ready e True have "src e \<in> set emitted"
        by (auto simp: ready_def list_all_iff)
      with n_new True show ?thesis
        by (simp add: precedes_snoc_new)
    next
      case False
      with d have "dst e \<in> set emitted" by simp
      with "1.prems"(6) [OF e] show ?thesis
        by (simp add: precedes_snoc_old)
    qed
    from "1.IH" [OF False n "1.prems"(1) inside d1 d2 d3 ord]
    obtain order where o: "kahn es (remove1 n pending) (emitted @ [n]) = Some order"
      and "distinct order"
      and "set order = set (remove1 n pending) \<union> set (emitted @ [n])"
      and "\<forall>e \<in> set es. dst e \<in> set order \<longrightarrow> precedes order (src e) (dst e)"
      by blast
    moreover have "kahn es pending emitted = Some order"
      using False n o by (subst kahn.simps) simp
    moreover have "set (remove1 n pending) \<union> set (emitted @ [n]) = set pending \<union> set emitted"
      using n_in "1.prems"(3) by auto
    ultimately show ?thesis
      by auto
  qed
qed

lemma distinct_count_once:
  "distinct xs \<Longrightarrow> n \<in> set xs \<Longrightarrow> count_list xs n = 1"
  by (induction xs) auto

lemma foldl_log: "foldl (\<lambda>acc n. acc @ [n]) init xs = init @ xs"
  by (induction xs arbitrary: init) auto

lemma valid_default: "valid_graph createDefaultGraph"
proof -
  have "edge_rel createDefaultGraph \<subseteq> less_than"
    by (simp add: edge_rel_def createDefaultGraph_def)
  then have "acyclic (edge_rel createDefaultGraph)"
    using acyclic_subset wf_acyclic wf_less_than by blast
  then show ?thesis
    by (simp add: valid_graph_def node_ids_def createDefaultGraph_def)
qed

lemma default_order: "tick (\<lambda>n log. log @ [n]) createDefaultGraph [] = Some [1, 2, 3, 4, 5, 6]"
  by (simp add: tick_def evaluation_order_def createDefaultGraph_def node_ids_def ready_def)

text \<open>
  C1: for every valid graph, one tick executes every node exactly once, and every node
  after all the nodes that feed its inputs. The execution is observed by a log to which
  the execution of a node appends the node: after one tick from the empty log, the log
  holds every node of the graph once, and for every edge the source node stands before
  the target node. One turn of the loop of \<^verbatim>\<open>startGraphLoop\<close> is one such tick, after the
  frame counter has advanced.
\<close>

theorem tick_topological:
  assumes "valid_graph g"
  shows "\<exists>order. tick (\<lambda>n log. log @ [n]) g [] = Some order
           \<and> loop (\<lambda>n log. log @ [n]) g (s, [])
               = (s\<lparr>frameCounter := frameCounter s + 1\<rparr>, Some order)
           \<and> set order = set (node_ids g)
           \<and> (\<forall>n \<in> set (node_ids g). count_list order n = 1)
           \<and> (\<forall>e \<in> set (gedges g). precedes order (src e) (dst e))"
proof -
  from assms have acyc: "acyclic (set (map (\<lambda>e. (src e, dst e)) (gedges g)))"
    and dist: "distinct (node_ids g)"
    and ends: "\<And>e. e \<in> set (gedges g) \<Longrightarrow> src e \<in> set (node_ids g) \<and> dst e \<in> set (node_ids g)"
    by (auto simp: valid_graph_def edge_rel_def list_all_iff)
  have "\<exists>order. kahn (gedges g) (node_ids g) [] = Some order
           \<and> distinct order \<and> set order = set (node_ids g) \<union> set []
           \<and> (\<forall>e \<in> set (gedges g). dst e \<in> set order \<longrightarrow> precedes order (src e) (dst e))"
    using acyc dist ends by (intro kahn_correct) auto
  then obtain order where o: "kahn (gedges g) (node_ids g) [] = Some order"
    and "distinct order" and "set order = set (node_ids g)"
    and "\<forall>e \<in> set (gedges g). dst e \<in> set order \<longrightarrow> precedes order (src e) (dst e)"
    by auto
  moreover have "tick (\<lambda>n log. log @ [n]) g [] = Some order"
    using o by (simp add: tick_def evaluation_order_def foldl_log)
  moreover have "loop (\<lambda>n log. log @ [n]) g (s, [])
               = (s\<lparr>frameCounter := frameCounter s + 1\<rparr>, Some order)"
    using calculation(5) by (simp add: loop_def)
  moreover have "\<forall>n \<in> set (node_ids g). count_list order n = 1"
    using calculation(2,3) by (simp add: distinct_count_once)
  moreover have "\<forall>e \<in> set (gedges g). precedes order (src e) (dst e)"
    using calculation(3,4) ends by blast
  ultimately show ?thesis
    by blast
qed

theorem tick_topological_witness:
  "valid_graph createDefaultGraph
   \<and> loop (\<lambda>n log. log @ [n]) createDefaultGraph (initial_state, [])
       = (initial_state\<lparr>frameCounter := 1\<rparr>, Some [1, 2, 3, 4, 5, 6])
   \<and> list_all (\<lambda>e. precedes [1, 2, 3, 4, 5, 6] (src e) (dst e)) (gedges createDefaultGraph)"
proof -
  from tick_topological [OF valid_default, of initial_state]
  obtain order where t: "tick (\<lambda>n log. log @ [n]) createDefaultGraph [] = Some order"
    and l: "loop (\<lambda>n log. log @ [n]) createDefaultGraph (initial_state, [])
              = (initial_state\<lparr>frameCounter := frameCounter initial_state + 1\<rparr>, Some order)"
    and p: "\<forall>e \<in> set (gedges createDefaultGraph). precedes order (src e) (dst e)"
    by blast
  from t default_order have o: "order = [1, 2, 3, 4, 5, 6]"
    by simp
  have fc: "initial_state\<lparr>frameCounter := frameCounter initial_state + 1\<rparr>
              = initial_state\<lparr>frameCounter := 1\<rparr>"
    by (simp add: initial_state_def)
  from p have "list_all (\<lambda>e. precedes order (src e) (dst e)) (gedges createDefaultGraph)"
    by (simp only: list_all_iff)
  with valid_default l show ?thesis
    unfolding o fc by (intro conjI)
qed

end
